theory Spec2Isabelle
  imports Main
begin

section \<open>JavaScript values and \<open>JSON.stringify\<close>\<close>

text \<open>
  The values a property of \<open>Request\<close> can hold, as far as \<open>getConfig\<close> and
  \<open>JSON.stringify\<close> tell them apart. An object is the list of its own enumerable
  properties in enumeration order. \<open>JNum\<close> is a number with an integer value.
  \<open>JSearchParams\<close> is a \<open>URLSearchParams\<close> object (one of the kinds of request body
  that \<open>Request.propTypes.data\<close> names): its entries are internal, it has no own
  enumerable property and no \<open>toJSON\<close>.
\<close>

datatype jsval =
    JUndefined
  | JNull
  | JBool bool
  | JNum int
  | JStr string
  | JArr "jsval list"
  | JObj "(string \<times> jsval) list"
  | JSearchParams "(string \<times> string) list"

fun digits :: "nat \<Rightarrow> string" where
  "digits n =
     (if n < 10 then [''0123456789'' ! n]
      else digits (n div 10) @ [''0123456789'' ! (n mod 10)])"

declare digits.simps [simp del]

definition NumberToString :: "int \<Rightarrow> string" where
  "NumberToString i = (if i < 0 then CHR ''-'' # digits (nat (- i)) else digits (nat i))"

definition hex :: "nat \<Rightarrow> char" where
  "hex n = ''0123456789abcdef'' ! n"

text \<open>
  \<open>QuoteJSONString\<close> of ECMA-262: the quotation mark (0x22) and the reverse solidus
  (0x5C) are escaped, the control characters get their short or \<open>\u00XX\<close> form.
\<close>

definition escape :: "char \<Rightarrow> string" where
  "escape c =
     (if c = CHR 0x08 then [CHR 0x5C, CHR ''b'']
      else if c = CHR 0x09 then [CHR 0x5C, CHR ''t'']
      else if c = CHR 0x0A then [CHR 0x5C, CHR ''n'']
      else if c = CHR 0x0C then [CHR 0x5C, CHR ''f'']
      else if c = CHR 0x0D then [CHR 0x5C, CHR ''r'']
      else if c = CHR 0x22 then [CHR 0x5C, CHR 0x22]
      else if c = CHR 0x5C then [CHR 0x5C, CHR 0x5C]
      else if (of_char c :: nat) < 32
        then [CHR 0x5C, CHR ''u'', CHR ''0'', CHR ''0'',
              hex (of_char c div 16), hex (of_char c mod 16)]
      else [c])"

definition QuoteJSONString :: "string \<Rightarrow> string" where
  "QuoteJSONString s = CHR 0x22 # concat (map escape s) @ [CHR 0x22]"

fun join :: "string list \<Rightarrow> string" where
  "join [] = []"
| "join [t] = t"
| "join (t # ts) = t @ '','' @ join ts"

text \<open>
  \<open>SerializeJSONProperty\<close> gives \<open>None\<close> where JavaScript gives \<open>undefined\<close>: such a
  property is left out of an object and written \<open>null\<close> in an array.
\<close>

function SerializeJSONProperty :: "jsval \<Rightarrow> string option"
  and SerializeJSONArray :: "jsval list \<Rightarrow> string list"
  and SerializeJSONObject :: "(string \<times> jsval) list \<Rightarrow> string list"
where
  "SerializeJSONProperty JUndefined = None"
| "SerializeJSONProperty JNull = Some ''null''"
| "SerializeJSONProperty (JBool b) = Some (if b then ''true'' else ''false'')"
| "SerializeJSONProperty (JNum i) = Some (NumberToString i)"
| "SerializeJSONProperty (JStr s) = Some (QuoteJSONString s)"
| "SerializeJSONProperty (JArr xs) = Some (''['' @ join (SerializeJSONArray xs) @ '']'')"
| "SerializeJSONProperty (JObj kvs) = Some (''{'' @ join (SerializeJSONObject kvs) @ ''}'')"
| "SerializeJSONProperty (JSearchParams es) = Some ''{}''"
| "SerializeJSONArray [] = []"
| "SerializeJSONArray (x # xs) =
     (case SerializeJSONProperty x of None \<Rightarrow> ''null'' | Some t \<Rightarrow> t) # SerializeJSONArray xs"
| "SerializeJSONObject [] = []"
| "SerializeJSONObject ((k, v) # kvs) =
     (case SerializeJSONProperty v of
        None \<Rightarrow> SerializeJSONObject kvs
      | Some t \<Rightarrow> (QuoteJSONString k @ '':'' @ t) # SerializeJSONObject kvs)"
  by pat_completeness auto
termination
  by (relation "measure (\<lambda>a. case a of
         Inl v \<Rightarrow> 2 * size v
       | Inr (Inl xs) \<Rightarrow> 2 * size_list size xs + 1
       | Inr (Inr kvs) \<Rightarrow> 2 * size_list (size_prod (\<lambda>k. 0) size) kvs + 1)")
    auto

definition JSON_stringify :: "(string \<times> jsval) list \<Rightarrow> string" where
  "JSON_stringify obj = ''{'' @ join (SerializeJSONObject obj) @ ''}''"

text \<open>
  Deep structural equality of two values, the comparison the description of the update
  path speaks of; the source does not compute it. Two objects are deeply equal when they
  have the same property keys with deeply equal values, in whatever order the keys are
  listed; two arrays when they have deeply equal elements at the same positions; any
  other two values when they are the same value.
\<close>

fun deep_equal :: "jsval \<Rightarrow> jsval \<Rightarrow> bool" where
  "deep_equal (JObj kvs) (JObj kvs') =
     (list_all (\<lambda>(k, v). case map_of kvs' k of None \<Rightarrow> False | Some v' \<Rightarrow> deep_equal v v') kvs \<and>
      list_all (\<lambda>(k, v'). map_of kvs k \<noteq> None) kvs')"
| "deep_equal (JArr xs) (JArr ys) = list_all2 deep_equal xs ys"
| "deep_equal a b = (a = b)"


section \<open>The data of \<open>Request\<close>\<close>

text \<open>
  A response: what the transport resolves with, and what the cache holds. The request
  method is \<open>response.config.method\<close>; it is \<open>None\<close> on a value that has no
  \<open>config\<close>, as the \<open>{data, status}\<close> that is written to the cache.
\<close>

record response =
  status :: int
  data :: jsval
  config_method :: "string option"

text \<open>
  What can be thrown or rejected. A fault of the transport is named by its description.
  \<open>invariant(false, err.stack)\<close> raises a new \<open>Invariant Violation\<close> whose message is
  the stack text of \<open>err\<close>: that message is \<open>StackOf err\<close>.
\<close>

datatype fault =
    TransportFault string
  | TypeError string
  | InvariantViolation message
and message =
    Text string
  | StackOf fault

text \<open>Modelled from the spec: the constants of \<open>./States\<close>, which the source imports as \<open>STATE\<close>.\<close>

datatype status = INIT | START | SUCCESS | FAILURE | ERROR

record state =
  status :: status
  response :: "response option"
  error :: "fault option"
  tag :: "string option"

text \<open>A function passed as a callback is known by its identity only.\<close>

type_synonym callback = nat

record props =
  url :: jsval
  "method" :: jsval
  headers :: jsval
  params :: jsval
  data :: jsval
  timeout :: jsval
  auth :: jsval
  responseType :: jsval
  xsrfCookieName :: jsval
  xsrfHeaderName :: jsval
  tag :: "string option"
  cache :: "int option"
  "defer" :: bool
  onStart :: "callback option"
  onSuccess :: "callback option"
  onFailure :: "callback option"
  onError :: "callback option"

text \<open>
  The store of the context: \<open>store.getState().requests\<close> maps a property key to an
  entry, and an entry may have a \<open>response\<close>.
\<close>

record cache_entry =
  response :: "response option"

record store_state =
  requests :: "string \<rightharpoonup> cache_entry"

record store =
  getState :: store_state

record "context" =
  store :: "store option"

record payload =
  tag :: "string option"
  response :: response
  timeout :: int

record action =
  type :: string
  payload :: payload

text \<open>
  What a call does besides returning, in the order it happens: a state update, a call
  of one of the four callbacks of the properties with its argument, a request handed to
  the transport, an action dispatched to the store, and a fault that leaves the promise
  chain with nobody to handle it.
\<close>

datatype event =
    SetState state
  | OnStart callback
  | OnSuccess callback "response option"
  | OnFailure callback "response option"
  | OnError callback "fault option"
  | TransportRequest "(string \<times> jsval) list"
  | Dispatch action
  | Uncaught fault

text \<open>A promise as its observer finds it.\<close>

datatype 'a promise = Fulfilled 'a | Rejected fault | Pending

section \<open>The operations of \<open>Request\<close>\<close>

definition optional :: "string option \<Rightarrow> jsval" where
  "optional t = (case t of None \<Rightarrow> JUndefined | Some s \<Rightarrow> JStr s)"

definition getConfig :: "props \<Rightarrow> (string \<times> jsval) list" where
  "getConfig p =
     [(''url'', url p), (''method'', method p), (''headers'', headers p),
      (''params'', params p), (''data'', props.data p), (''timeout'', props.timeout p),
      (''auth'', auth p), (''responseType'', responseType p),
      (''xsrfCookieName'', xsrfCookieName p), (''xsrfHeaderName'', xsrfHeaderName p),
      (''tag'', optional (props.tag p))]"

definition constructor :: "props \<Rightarrow> state" where
  "constructor p =
     \<lparr>state.status = INIT, state.response = None, state.error = None,
      state.tag = props.tag p\<rparr>"

text \<open>
  A run of an operation is followed to its end: the operation takes the state of the
  component and what the network does, and gives the state it leaves and the events in
  the order the source makes them. One run is followed at a time, with the properties
  and the store as they are when it starts.

  \<open>setState(partial, callback)\<close>: the update is merged into the state, then the callback
  runs on the updated component. The callbacks of the properties are taken to return
  normally.
\<close>

definition setState ::
  "(state \<Rightarrow> state) \<Rightarrow> (state \<Rightarrow> event list) \<Rightarrow> state \<Rightarrow> state \<times> event list" where
  "setState partial callback s = (let s' = partial s in (s', SetState s' # callback s'))"

text \<open>
  The second argument of each \<open>setState\<close> of \<open>fire\<close>: \<open>this.props.onStart\<close>, and
  \<open>(this.props.onX) ? this.onX : undefined\<close> with the method \<open>onX\<close> of the class.
\<close>

definition onStart_callback :: "props \<Rightarrow> state \<Rightarrow> event list" where
  "onStart_callback p s = (case onStart p of None \<Rightarrow> [] | Some f \<Rightarrow> [OnStart f])"

definition onSuccess_callback :: "props \<Rightarrow> state \<Rightarrow> event list" where
  "onSuccess_callback p s =
     (case onSuccess p of None \<Rightarrow> [] | Some f \<Rightarrow> [OnSuccess f (state.response s)])"

definition onFailure_callback :: "props \<Rightarrow> state \<Rightarrow> event list" where
  "onFailure_callback p s =
     (case onFailure p of None \<Rightarrow> [] | Some f \<Rightarrow> [OnFailure f (state.response s)])"

definition onError_callback :: "props \<Rightarrow> state \<Rightarrow> event list" where
  "onError_callback p s =
     (case onError p of None \<Rightarrow> [] | Some f \<Rightarrow> [OnError f (state.error s)])"

text \<open>\<open>requests[tag]\<close> converts \<open>tag\<close> to a property key.\<close>

definition ToPropertyKey :: "string option \<Rightarrow> string" where
  "ToPropertyKey t = (case t of None \<Rightarrow> ''undefined'' | Some s \<Rightarrow> s)"

definition getCachedResponse :: "props \<Rightarrow> context \<Rightarrow> response option" where
  "getCachedResponse p ctx =
     (case store ctx of
        None \<Rightarrow> None
      | Some st \<Rightarrow>
          (case requests (getState st) (ToPropertyKey (props.tag p)) of
             None \<Rightarrow> None
           | Some entry \<Rightarrow> cache_entry.response entry))"

text \<open>\<open>invariant(condition, format)\<close> of the package \<open>invariant\<close>.\<close>

definition invariant :: "bool \<Rightarrow> message \<Rightarrow> fault + unit" where
  "invariant condition format = (if condition then Inr () else Inl (InvariantViolation format))"

definition toLowerCase :: "string \<Rightarrow> string" where
  "toLowerCase s =
     map (\<lambda>c. case map_of (zip ''ABCDEFGHIJKLMNOPQRSTUVWXYZ'' ''abcdefghijklmnopqrstuvwxyz'') c of
                None \<Rightarrow> c | Some l \<Rightarrow> l) s"

definition cacheableMethods :: "string list" where
  "cacheableMethods = [''head'', ''get'', ''post'']"

text \<open>
  The interceptor throws (\<open>Inl\<close>) or returns a value, which is \<open>None\<close> for \<open>undefined\<close>,
  with the actions it has dispatched.
\<close>

definition cacheResponseInterceptor ::
  "props \<Rightarrow> context \<Rightarrow> response \<Rightarrow> fault + (response option \<times> event list)" where
  "cacheResponseInterceptor p ctx r =
     (case cache p of
        None \<Rightarrow> Inr (Some r, [])
      | Some c \<Rightarrow>
          (case config_method r of
             None \<Rightarrow> Inl (TypeError ''response.config is undefined'')
           | Some m \<Rightarrow>
               if toLowerCase m \<notin> set cacheableMethods then Inr (None, [])
               else
                 (case invariant (store ctx \<noteq> None)
                         (Text ''caching is only available when store is configured'') of
                    Inl e \<Rightarrow> Inl e
                  | Inr _ \<Rightarrow>
                      (case invariant (props.tag p \<noteq> None)
                              (Text ''tag property is required for caching'') of
                         Inl e \<Rightarrow> Inl e
                       | Inr _ \<Rightarrow>
                           Inr (Some r,
                                [Dispatch
                                   \<lparr>type = ''CACHE_REQUEST'',
                                    payload =
                                      \<lparr>payload.tag = props.tag p,
                                       payload.response =
                                         \<lparr>response.status = response.status r,
                                          response.data = response.data r,
                                          config_method = None\<rparr>,
                                       payload.timeout = c\<rparr>\<rparr>])))))"

text \<open>
  The transport collaborator is the package \<open>axios\<close>, outside the repository. It is
  taken as its interface is described: it "must support a response-interceptor hook
  invoked with every response before it reaches the caller" and "must reject its future
  on network/transport failure". \<open>net\<close> is what the network does with a request; the
  constructor has registered \<open>cacheResponseInterceptor\<close> as the one interceptor, and an
  interceptor that throws rejects the promise.
\<close>

definition axios_request ::
  "((string \<times> jsval) list \<Rightarrow> response promise) \<Rightarrow> props \<Rightarrow> context \<Rightarrow>
   (string \<times> jsval) list \<Rightarrow> response option promise \<times> event list" where
  "axios_request net p ctx config =
     (case net config of
        Pending \<Rightarrow> (Pending, [])
      | Rejected err \<Rightarrow> (Rejected err, [])
      | Fulfilled r \<Rightarrow>
          (case cacheResponseInterceptor p ctx r of
             Inl err \<Rightarrow> (Rejected err, [])
           | Inr (v, evs) \<Rightarrow> (Fulfilled v, evs)))"

text \<open>
  \<open>Math.round(response.status / 100)\<close> for an integer status: \<open>Math.round\<close> takes a
  half upwards, so the result is the floor of \<open>status / 100 + 1/2\<close>.
\<close>

definition Math_round_div_100 :: "int \<Rightarrow> int" where
  "Math_round_div_100 n = (n + 50) div 100"

text \<open>The function given to \<open>then\<close>; reading \<open>status\<close> of \<open>undefined\<close> throws.\<close>

definition fire_then :: "props \<Rightarrow> response option \<Rightarrow> state \<Rightarrow> fault + state \<times> event list" where
  "fire_then p v s =
     (case v of
        None \<Rightarrow> Inl (TypeError ''cannot read status of undefined'')
      | Some r \<Rightarrow>
          (let code = Math_round_div_100 (response.status r)
           in if code = 2
              then Inr (setState (\<lambda>s. s\<lparr>state.status := SUCCESS, state.response := Some r\<rparr>)
                          (onSuccess_callback p) s)
              else Inr (setState (\<lambda>s. s\<lparr>state.status := FAILURE, state.response := Some r\<rparr>)
                          (onFailure_callback p) s)))"

text \<open>The function given to \<open>catch\<close>; it always ends by throwing.\<close>

definition fire_catch :: "props \<Rightarrow> fault \<Rightarrow> state \<Rightarrow> state \<times> event list" where
  "fire_catch p err s =
     (let (s', evs) = setState (\<lambda>s. s\<lparr>state.status := ERROR, state.error := Some err\<rparr>)
                        (onError_callback p) s
      in case invariant False (StackOf err) of
           Inl e \<Rightarrow> (s', evs @ [Uncaught e])
         | Inr _ \<Rightarrow> (s', evs))"

definition prune :: "(string \<times> jsval) list \<Rightarrow> (string \<times> jsval) list" where
  "prune config = filter (\<lambda>(k, v). v \<noteq> JUndefined) config"

definition fire ::
  "((string \<times> jsval) list \<Rightarrow> response promise) \<Rightarrow> props \<Rightarrow> context \<Rightarrow> state \<Rightarrow>
   state \<times> event list" where
  "fire net p ctx s =
     (case getCachedResponse p ctx of
        Some cachedResponse \<Rightarrow>
          setState (\<lambda>s. s\<lparr>state.status := SUCCESS, state.response := Some cachedResponse\<rparr>)
            (onSuccess_callback p) s
      | None \<Rightarrow>
          (let config = prune (getConfig p);
               (s1, evs1) = setState (\<lambda>s. s\<lparr>state.status := START\<rparr>) (onStart_callback p) s;
               (settled, evs2) = axios_request net p ctx config;
               (s2, evs3) =
                 (case settled of
                    Pending \<Rightarrow> (s1, [])
                  | Rejected err \<Rightarrow> fire_catch p err s1
                  | Fulfilled v \<Rightarrow>
                      (case fire_then p v s1 of
                         Inr res \<Rightarrow> res
                       | Inl err \<Rightarrow> fire_catch p err s1))
           in (s2, evs1 @ [TransportRequest config] @ evs2 @ evs3)))"

definition componentDidMount ::
  "((string \<times> jsval) list \<Rightarrow> response promise) \<Rightarrow> props \<Rightarrow> context \<Rightarrow> state \<Rightarrow>
   state \<times> event list" where
  "componentDidMount net p ctx s = (if \<not> defer p then fire net p ctx s else (s, []))"

definition componentDidUpdate ::
  "((string \<times> jsval) list \<Rightarrow> response promise) \<Rightarrow> props \<Rightarrow> props \<Rightarrow> context \<Rightarrow> state \<Rightarrow>
   state \<times> event list" where
  "componentDidUpdate net p prevProps ctx s =
     (if JSON_stringify (getConfig p) = JSON_stringify (getConfig prevProps) then (s, [])
      else if \<not> defer p then fire net p ctx s
      else (s, []))"


section \<open>Observing a run\<close>

definition status_of :: "event \<Rightarrow> status option" where
  "status_of ev = (case ev of SetState t \<Rightarrow> Some (state.status t) | _ \<Rightarrow> None)"

definition statuses :: "event list \<Rightarrow> status list" where
  "statuses evs = List.map_filter status_of evs"

definition is_transport_call :: "event \<Rightarrow> bool" where
  "is_transport_call ev = (case ev of TransportRequest _ \<Rightarrow> True | _ \<Rightarrow> False)"

definition is_outcome_callback :: "event \<Rightarrow> bool" where
  "is_outcome_callback ev =
     (case ev of OnSuccess _ _ \<Rightarrow> True | OnFailure _ _ \<Rightarrow> True | OnError _ _ \<Rightarrow> True
      | _ \<Rightarrow> False)"

definition state_of :: "event \<Rightarrow> state option" where
  "state_of ev = (case ev of SetState t \<Rightarrow> Some t | _ \<Rightarrow> None)"

definition states :: "event list \<Rightarrow> state list" where
  "states evs = List.map_filter state_of evs"

text \<open>
  One transition of the lifecycle, from \<open>s\<close> to \<open>t\<close>: the tag stays, the status is
  set and is never \<open>INIT\<close>, and besides the status only the field the transition carries
  changes: a response with SUCCESS or FAILURE, an error with ERROR, nothing with START.
\<close>

definition transition :: "state \<Rightarrow> state \<Rightarrow> bool" where
  "transition s t =
     (state.tag t = state.tag s \<and>
      (case state.status t of
         INIT \<Rightarrow> False
       | START \<Rightarrow> state.response t = state.response s \<and> state.error t = state.error s
       | SUCCESS \<Rightarrow> state.response t \<noteq> None \<and> state.error t = state.error s
       | FAILURE \<Rightarrow> state.response t \<noteq> None \<and> state.error t = state.error s
       | ERROR \<Rightarrow> state.error t \<noteq> None \<and> state.response t = state.response s))"

fun chain :: "state \<Rightarrow> state list \<Rightarrow> bool" where
  "chain s [] = True"
| "chain s (t # ts) = (transition s t \<and> chain t ts)"

text \<open>The events every run of \<open>fire\<close> that misses the cache begins with, and the three ways it ends.\<close>

definition started :: "props \<Rightarrow> state \<Rightarrow> event list" where
  "started p s =
     SetState (s\<lparr>state.status := START\<rparr>) #
     (case onStart p of None \<Rightarrow> [] | Some f \<Rightarrow> [OnStart f]) @
     [TransportRequest (prune (getConfig p))]"

definition ended_SUCCESS :: "props \<Rightarrow> response \<Rightarrow> state \<Rightarrow> event list" where
  "ended_SUCCESS p r s =
     SetState (s\<lparr>state.status := SUCCESS, state.response := Some r\<rparr>) #
     (case onSuccess p of None \<Rightarrow> [] | Some f \<Rightarrow> [OnSuccess f (Some r)])"

definition ended_FAILURE :: "props \<Rightarrow> response \<Rightarrow> state \<Rightarrow> event list" where
  "ended_FAILURE p r s =
     SetState (s\<lparr>state.status := FAILURE, state.response := Some r\<rparr>) #
     (case onFailure p of None \<Rightarrow> [] | Some f \<Rightarrow> [OnFailure f (Some r)])"

definition ended_ERROR :: "props \<Rightarrow> fault \<Rightarrow> state \<Rightarrow> event list" where
  "ended_ERROR p err s =
     SetState (s\<lparr>state.status := ERROR, state.error := Some err\<rparr>) #
     (case onError p of None \<Rightarrow> [] | Some f \<Rightarrow> [OnError f (Some err)]) @
     [Uncaught (InvariantViolation (StackOf err))]"

text \<open>The one callback that belongs to the status a run has ended in, if it is registered.\<close>

definition outcome_callback :: "props \<Rightarrow> state \<Rightarrow> event list" where
  "outcome_callback p t =
     (case state.status t of
        SUCCESS \<Rightarrow> (case onSuccess p of None \<Rightarrow> [] | Some f \<Rightarrow> [OnSuccess f (state.response t)])
      | FAILURE \<Rightarrow> (case onFailure p of None \<Rightarrow> [] | Some f \<Rightarrow> [OnFailure f (state.response t)])
      | ERROR \<Rightarrow> (case onError p of None \<Rightarrow> [] | Some f \<Rightarrow> [OnError f (state.error t)])
      | _ \<Rightarrow> [])"

text \<open>The assertion that fails in the interceptor when \<open>cache\<close> is set and \<open>tag\<close> is not.\<close>

definition caching_violation :: "context \<Rightarrow> fault" where
  "caching_violation ctx =
     InvariantViolation
       (Text (if store ctx = None then ''caching is only available when store is configured''
              else ''tag property is required for caching''))"

section \<open>Example inputs\<close>

text \<open>The mount of the end-to-end scenario, with all four callbacks registered.\<close>

definition items_props :: props where
  "items_props =
     \<lparr>url = JStr ''/items'', method = JStr ''get'', headers = JUndefined, params = JUndefined,
      props.data = JUndefined, props.timeout = JUndefined, auth = JUndefined,
      responseType = JUndefined, xsrfCookieName = JUndefined, xsrfHeaderName = JUndefined,
      props.tag = Some ''items'', cache = None, defer = False,
      onStart = Some 0, onSuccess = Some 1, onFailure = Some 2, onError = Some 3\<rparr>"

definition no_store :: "context" where
  "no_store = \<lparr>store = None\<rparr>"

definition store_with :: "(string \<rightharpoonup> cache_entry) \<Rightarrow> context" where
  "store_with m = \<lparr>store = Some \<lparr>getState = \<lparr>requests = m\<rparr>\<rparr>\<rparr>"

definition respond :: "int \<Rightarrow> string \<Rightarrow> response" where
  "respond n m =
     \<lparr>response.status = n, response.data = JArr [JNum 1, JNum 2, JNum 3],
      config_method = Some m\<rparr>"

text \<open>A store that holds the response \<open>{status: 200, data: "X"}\<close> under the tag \<open>items\<close>.\<close>

definition cached_X :: response where
  "cached_X = \<lparr>response.status = 200, response.data = JStr ''X'', config_method = None\<rparr>"

definition items_cached :: "context" where
  "items_cached = store_with [''items'' \<mapsto> \<lparr>cache_entry.response = Some cached_X\<rparr>]"

text \<open>A \<open>delete\<close> with caching configured, and a \<open>get\<close> with a cache duration and no tag.\<close>

definition items_delete_cached :: props where
  "items_delete_cached = items_props\<lparr>method := JStr ''delete'', cache := Some 5000\<rparr>"

definition items_untagged :: props where
  "items_untagged = items_props\<lparr>props.tag := None, cache := Some 1000\<rparr>"


definition search_props :: "string \<Rightarrow> props" where
  "search_props q =
     items_props\<lparr>url := JStr ''/search'', method := JStr ''post'',
                 props.data := JSearchParams [(''q'', q)]\<rparr>"



text \<open>The state a failed request has left behind.\<close>

definition after_error :: state where
  "after_error =
     \<lparr>state.status = ERROR, state.response = None,
      state.error = Some (TransportFault ''Network Error''), state.tag = Some ''items''\<rparr>"

section \<open>How \<open>fire\<close> unfolds\<close>

lemmas observers = status_of_def statuses_def is_transport_call_def is_outcome_callback_def
  List.map_filter_simps

lemmas callbacks = onStart_callback_def onSuccess_callback_def onFailure_callback_def
  onError_callback_def

lemmas examples = items_props_def no_store_def store_with_def respond_def constructor_def
  cached_X_def items_cached_def

lemmas steps = fire_def setState_def axios_request_def cacheResponseInterceptor_def
  fire_then_def fire_catch_def invariant_def getCachedResponse_def ToPropertyKey_def
  prune_def getConfig_def optional_def Math_round_div_100_def toLowerCase_def
  cacheableMethods_def Let_def

lemmas serialise = JSON_stringify_def QuoteJSONString_def escape_def hex_def NumberToString_def

lemma Math_round_div_100_eq_2: "Math_round_div_100 n = 2 \<longleftrightarrow> 150 \<le> n \<and> n \<le> 249"
  unfolding Math_round_div_100_def by auto

lemma fire_cached:
  assumes "getCachedResponse p ctx = Some r"
  shows "fire net p ctx s =
    (s\<lparr>state.status := SUCCESS, state.response := Some r\<rparr>, ended_SUCCESS p r s)"
  using assms
  by (simp add: fire_def setState_def Let_def onSuccess_callback_def ended_SUCCESS_def
      split: option.splits)

lemma fire_catch_eq:
  "fire_catch p err s = (s\<lparr>state.status := ERROR, state.error := Some err\<rparr>, ended_ERROR p err s)"
  by (simp add: fire_catch_def setState_def Let_def invariant_def onError_callback_def
      ended_ERROR_def split: option.splits)

lemma fire_then_undefined: "fire_then p None s = Inl (TypeError ''cannot read status of undefined'')"
  by (simp add: fire_then_def)

lemma fire_then_response:
  "fire_then p (Some r) s =
     Inr (if 150 \<le> response.status r \<and> response.status r \<le> 249
          then (s\<lparr>state.status := SUCCESS, state.response := Some r\<rparr>, ended_SUCCESS p r s)
          else (s\<lparr>state.status := FAILURE, state.response := Some r\<rparr>, ended_FAILURE p r s))"
  by (simp add: fire_then_def setState_def Let_def Math_round_div_100_eq_2
      onSuccess_callback_def onFailure_callback_def ended_SUCCESS_def ended_FAILURE_def
      split: option.splits)

lemma fire_miss:
  assumes "getCachedResponse p ctx = None"
    and "axios_request net p ctx (prune (getConfig p)) = (settled, evs)"
  shows "fire net p ctx s =
    (case settled of
       Pending \<Rightarrow> (s\<lparr>state.status := START\<rparr>, started p s @ evs)
     | Rejected err \<Rightarrow>
         (s\<lparr>state.status := ERROR, state.error := Some err\<rparr>,
          started p s @ evs @ ended_ERROR p err (s\<lparr>state.status := START\<rparr>))
     | Fulfilled None \<Rightarrow>
         (s\<lparr>state.status := ERROR,
            state.error := Some (TypeError ''cannot read status of undefined'')\<rparr>,
          started p s @ evs @
            ended_ERROR p (TypeError ''cannot read status of undefined'') (s\<lparr>state.status := START\<rparr>))
     | Fulfilled (Some r) \<Rightarrow>
         if 150 \<le> response.status r \<and> response.status r \<le> 249
         then (s\<lparr>state.status := SUCCESS, state.response := Some r\<rparr>,
               started p s @ evs @ ended_SUCCESS p r (s\<lparr>state.status := START\<rparr>))
         else (s\<lparr>state.status := FAILURE, state.response := Some r\<rparr>,
               started p s @ evs @ ended_FAILURE p r (s\<lparr>state.status := START\<rparr>)))"
proof (cases settled)
  case Pending
  with assms show ?thesis
    by (simp add: fire_def setState_def Let_def started_def onStart_callback_def)
next
  case (Rejected err)
  with assms show ?thesis
    by (simp add: fire_def setState_def Let_def started_def onStart_callback_def fire_catch_eq)
next
  case (Fulfilled v)
  show ?thesis
  proof (cases v)
    case None
    with Fulfilled assms show ?thesis
      by (simp add: fire_def setState_def Let_def started_def onStart_callback_def
          fire_then_undefined fire_catch_eq)
  next
    case (Some r)
    with Fulfilled assms show ?thesis
      by (simp add: fire_def setState_def Let_def started_def onStart_callback_def
          fire_then_response)
  qed
qed

lemma fire_events: "snd (fire net p ctx s) \<noteq> []"
proof (cases "getCachedResponse p ctx")
  case (Some r)
  then show ?thesis by (simp add: fire_cached ended_SUCCESS_def)
next
  case None
  obtain settled evs where ax: "axios_request net p ctx (prune (getConfig p)) = (settled, evs)"
    by (cases "axios_request net p ctx (prune (getConfig p))")
  show ?thesis
    by (simp add: fire_miss [OF None ax] started_def split: promise.split option.split)
qed


subsection \<open>What the interceptor adds\<close>

lemma interceptor_events:
  assumes "cacheResponseInterceptor p ctx r = Inr (v, evs)"
  shows "evs = [] \<or> (\<exists>a. evs = [Dispatch a])"
  using assms
  by (auto simp: cacheResponseInterceptor_def invariant_def split: option.splits if_splits)

lemma axios_request_events:
  assumes "axios_request net p ctx config = (settled, evs)"
  shows "evs = [] \<or> (\<exists>a. evs = [Dispatch a])"
proof (cases "net config")
  case (Fulfilled r)
  show ?thesis
  proof (cases "cacheResponseInterceptor p ctx r")
    case (Inl err)
    with Fulfilled assms show ?thesis by (simp add: axios_request_def)
  next
    case (Inr res)
    obtain v evs' where res: "res = (v, evs')" by (cases res)
    with Inr Fulfilled assms have "evs = evs'" by (simp add: axios_request_def)
    with Inr res interceptor_events show ?thesis by blast
  qed
qed (use assms in \<open>simp_all add: axios_request_def\<close>)

lemma axios_request_Pending:
  assumes "axios_request net p ctx config = (settled, evs)"
  shows "settled = Pending \<longleftrightarrow> net config = Pending"
  using assms by (auto simp: axios_request_def split: promise.splits sum.splits)


lemma interceptor_uncacheable:
  assumes "cache p = Some c" and "config_method r = Some m"
    and "toLowerCase m \<notin> set cacheableMethods"
  shows "cacheResponseInterceptor p ctx r = Inr (None, [])"
  using assms by (simp add: cacheResponseInterceptor_def)

lemma interceptor_untagged:
  assumes "cache p = Some c" and "props.tag p = None"
    and "config_method r = Some m" and "toLowerCase m \<in> set cacheableMethods"
  shows "cacheResponseInterceptor p ctx r = Inl (caching_violation ctx)"
  using assms by (simp add: cacheResponseInterceptor_def invariant_def caching_violation_def)


subsection \<open>Statuses, callbacks and states of a run\<close>

lemma statuses_append: "statuses (xs @ ys) = statuses xs @ statuses ys"
  by (simp add: statuses_def List.map_filter_def)

lemma statuses_started: "statuses (started p s) = [START]"
  by (simp add: started_def observers split: option.split)

lemma statuses_ended:
  "statuses (ended_SUCCESS p r s) = [SUCCESS]"
  "statuses (ended_FAILURE p r s) = [FAILURE]"
  "statuses (ended_ERROR p err s) = [ERROR]"
  by (simp_all add: ended_SUCCESS_def ended_FAILURE_def ended_ERROR_def observers
      split: option.split)

lemma statuses_dispatched: "evs = [] \<or> (\<exists>a. evs = [Dispatch a]) \<Longrightarrow> statuses evs = []"
  by (auto simp: observers)


lemma fire_final_status:
  assumes "getCachedResponse p ctx \<noteq> None \<or> net (prune (getConfig p)) \<noteq> Pending"
  shows "state.status (fst (fire net p ctx s)) \<in> {SUCCESS, FAILURE, ERROR}"
proof (cases "getCachedResponse p ctx")
  case (Some r)
  then show ?thesis by (simp add: fire_cached)
next
  case None
  obtain settled evs where ax: "axios_request net p ctx (prune (getConfig p)) = (settled, evs)"
    by (cases "axios_request net p ctx (prune (getConfig p))")
  from axios_request_Pending [OF ax] assms None have "settled \<noteq> Pending"
    by simp
  then show ?thesis
    by (cases settled) (simp_all add: fire_miss [OF None ax] split: option.split)
qed

lemma outcome_started: "filter is_outcome_callback (started p s) = []"
  by (simp add: started_def is_outcome_callback_def split: option.split)

lemma outcome_dispatched:
  "evs = [] \<or> (\<exists>a. evs = [Dispatch a]) \<Longrightarrow> filter is_outcome_callback evs = []"
  by (auto simp: is_outcome_callback_def)

lemma outcome_ended:
  "filter is_outcome_callback (ended_SUCCESS p r s) =
     (case onSuccess p of None \<Rightarrow> [] | Some f \<Rightarrow> [OnSuccess f (Some r)])"
  "filter is_outcome_callback (ended_FAILURE p r s) =
     (case onFailure p of None \<Rightarrow> [] | Some f \<Rightarrow> [OnFailure f (Some r)])"
  "filter is_outcome_callback (ended_ERROR p err s) =
     (case onError p of None \<Rightarrow> [] | Some f \<Rightarrow> [OnError f (Some err)])"
  by (simp_all add: ended_SUCCESS_def ended_FAILURE_def ended_ERROR_def is_outcome_callback_def
      split: option.split)

lemma fire_outcome_callback:
  assumes "getCachedResponse p ctx \<noteq> None \<or> net (prune (getConfig p)) \<noteq> Pending"
  shows "filter is_outcome_callback (snd (fire net p ctx s)) = outcome_callback p (fst (fire net p ctx s))"
proof (cases "getCachedResponse p ctx")
  case (Some r)
  then show ?thesis
    by (simp add: fire_cached outcome_ended outcome_callback_def split: option.split)
next
  case None
  obtain settled evs where ax: "axios_request net p ctx (prune (getConfig p)) = (settled, evs)"
    by (cases "axios_request net p ctx (prune (getConfig p))")
  have quiet: "filter is_outcome_callback evs = []"
    using axios_request_events [OF ax] by (rule outcome_dispatched)
  have pend: "settled \<noteq> Pending"
    using axios_request_Pending [OF ax] assms None by simp
  show ?thesis
  proof (cases settled)
    case Pending
    with pend show ?thesis by simp
  next
    case (Rejected err)
    with quiet show ?thesis
      by (simp add: fire_miss [OF None ax] outcome_started outcome_ended outcome_callback_def
          split: option.split)
  next
    case (Fulfilled v)
    with quiet show ?thesis
      by (cases v)
        (simp_all add: fire_miss [OF None ax] outcome_started outcome_ended outcome_callback_def
          split: option.split)
  qed
qed


lemma states_append: "states (xs @ ys) = states xs @ states ys"
  by (simp add: states_def List.map_filter_def)

lemma states_Nil: "states [] = []"
  by (simp add: states_def)

lemma states_started: "states (started p s) = [s\<lparr>state.status := START\<rparr>]"
  by (simp add: started_def states_def state_of_def List.map_filter_simps split: option.split)

lemma states_ended:
  "states (ended_SUCCESS p r s) = [s\<lparr>state.status := SUCCESS, state.response := Some r\<rparr>]"
  "states (ended_FAILURE p r s) = [s\<lparr>state.status := FAILURE, state.response := Some r\<rparr>]"
  "states (ended_ERROR p err s) = [s\<lparr>state.status := ERROR, state.error := Some err\<rparr>]"
  by (simp_all add: ended_SUCCESS_def ended_FAILURE_def ended_ERROR_def states_def state_of_def
      List.map_filter_simps split: option.split)

lemma states_dispatched: "evs = [] \<or> (\<exists>a. evs = [Dispatch a]) \<Longrightarrow> states evs = []"
  by (auto simp: states_def state_of_def List.map_filter_simps)

lemma chain_append: "chain s (ts @ us) \<longleftrightarrow> chain s ts \<and> chain (last (s # ts)) us"
  by (induction ts arbitrary: s) simp_all

lemma chain_last:
  assumes "chain s ts"
  shows "state.tag (last (s # ts)) = state.tag s"
    and "state.response s \<noteq> None \<Longrightarrow> state.response (last (s # ts)) \<noteq> None"
    and "state.error s \<noteq> None \<Longrightarrow> state.error (last (s # ts)) \<noteq> None"
  using assms
proof (induction ts arbitrary: s)
  case Nil
  { case 1 show ?case by simp
  next case 2 then show ?case by simp
  next case 3 then show ?case by simp }
next
  case (Cons t ts)
  { case 1
    from 1 have "transition s t" "chain t ts" by simp_all
    with Cons.IH(1) [of t] show ?case by (simp add: transition_def)
  next
    case 2
    from 2 have "transition s t" "chain t ts" by simp_all
    with 2 Cons.IH(2) [of t] show ?case
      by (cases "state.status t") (auto simp: transition_def)
  next
    case 3
    from 3 have "transition s t" "chain t ts" by simp_all
    with 3 Cons.IH(3) [of t] show ?case
      by (cases "state.status t") (auto simp: transition_def) }
qed

lemma fire_frame:
  "chain s (states (snd (fire net p ctx s))) \<and>
   fst (fire net p ctx s) = last (s # states (snd (fire net p ctx s))) \<and>
   (state.status (fst (fire net p ctx s)) \<noteq> ERROR \<longrightarrow>
      state.error (fst (fire net p ctx s)) = state.error s) \<and>
   (state.status (fst (fire net p ctx s)) = ERROR \<longrightarrow>
      state.response (fst (fire net p ctx s)) = state.response s)"
proof (cases "getCachedResponse p ctx")
  case (Some r)
  then show ?thesis by (simp add: fire_cached states_ended transition_def)
next
  case None
  obtain settled evs where ax: "axios_request net p ctx (prune (getConfig p)) = (settled, evs)"
    by (cases "axios_request net p ctx (prune (getConfig p))")
  have quiet: "states evs = []"
    using axios_request_events [OF ax] by (rule states_dispatched)
  show ?thesis
  proof (cases settled)
    case Pending
    with quiet show ?thesis
      by (simp add: fire_miss [OF None ax] states_append states_started transition_def)
  next
    case (Rejected err)
    with quiet show ?thesis
      by (simp add: fire_miss [OF None ax] states_append states_started states_ended
          transition_def)
  next
    case (Fulfilled v)
    with quiet show ?thesis
      by (cases v)
        (simp_all add: fire_miss [OF None ax] states_append states_started states_ended
          transition_def)
  qed
qed

lemma componentDidUpdate_cases:
  "componentDidUpdate net p prevProps ctx s = (s, []) \<or>
   componentDidUpdate net p prevProps ctx s = fire net p ctx s"
  by (simp add: componentDidUpdate_def)

lemma componentDidMount_cases:
  "componentDidMount net p ctx s = (s, []) \<or> componentDidMount net p ctx s = fire net p ctx s"
  by (simp add: componentDidMount_def)


lemma fire_classification:
  assumes "getCachedResponse p ctx = None" and "cache p = None"
    and "net (prune (getConfig p)) = Fulfilled r"
  shows "state.status (fst (fire net p ctx s)) =
           (if 150 \<le> response.status r \<and> response.status r \<le> 249 then SUCCESS else FAILURE)"
proof -
  from assms(2,3) have "axios_request net p ctx (prune (getConfig p)) = (Fulfilled (Some r), [])"
    by (simp add: axios_request_def cacheResponseInterceptor_def)
  from fire_miss [OF assms(1) this] show ?thesis by simp
qed

subsection \<open>What \<open>JSON.stringify\<close> writes and what it does not see\<close>

lemma stringify_items_props:
  \<open>JSON_stringify (getConfig items_props) = ''{"url":"/items","method":"get","tag":"items"}''\<close>
  by (simp add: serialise getConfig_def optional_def items_props_def)

lemma stringify_nested:
  \<open>JSON_stringify
     [(''headers'', JObj [(''X-Id'', JNum (-120)), (''skip'', JUndefined)]),
      (''params'', JArr [JUndefined, JStr ''a"b'', JBool True, JNull, JNum 2048])] =
   ''{"headers":{"X-Id":-120},"params":[null,"a'' @ [CHR 0x5C] @ ''"b",true,null,2048]}''\<close>
  by (simp add: serialise digits.simps)

lemma deep_equal_ignores_property_order:
  "deep_equal (JArr [JObj [(''a'', JNum 1), (''b'', JNull)], JStr ''x''])
              (JArr [JObj [(''b'', JNull), (''a'', JNum 1)], JStr ''x''])"
  by simp

lemma deep_equal_keeps_array_order:
  "\<not> deep_equal (JArr [JStr ''x'', JStr ''y'']) (JArr [JStr ''y'', JStr ''x''])"
  by simp

lemma deep_equal_sees_properties:
  "\<not> deep_equal (JObj [(''a'', JNum 1)]) (JObj [(''a'', JNum 1), (''b'', JNum 2)])"
  "\<not> deep_equal (JObj [(''a'', JNum 1)]) (JObj [(''a'', JNum 2)])"
  "\<not> deep_equal (JObj [(''q'', JUndefined)]) (JObj [])"
  by simp_all

lemma stringify_URLSearchParams:
  "JSON_stringify (getConfig (p\<lparr>props.data := JSearchParams es\<rparr>)) =
     JSON_stringify (getConfig (p\<lparr>props.data := JSearchParams es'\<rparr>))"
  by (simp add: JSON_stringify_def getConfig_def split: option.split)

lemma stringify_search_props:
  "JSON_stringify (getConfig (search_props q)) =
     JSON_stringify (getConfig (search_props q'))"
  unfolding search_props_def by (rule stringify_URLSearchParams)


section \<open>Classification of the response status\<close>

text \<open>
  C1. A completed fire() that did not read the cache ends in SUCCESS when the status
  code of the response is in 200..299 and in FAILURE for any other code, by the
  integer quotient of the code by 100. The code rounds the quotient instead
  (\<open>Math.round\<close>), so it takes 150..249 for success (\<open>fire_classification\<close>): a
  response with status 250 ends in FAILURE and \<open>onFailure\<close> is called.
\<close>

theorem fire_status_250_is_FAILURE:
  "fire (\<lambda>config. Fulfilled (respond 250 ''get'')) items_props no_store (constructor items_props) =
     (\<lparr>state.status = FAILURE, state.response = Some (respond 250 ''get''), state.error = None,
       state.tag = Some ''items''\<rparr>,
      [SetState \<lparr>state.status = START, state.response = None, state.error = None,
                 state.tag = Some ''items''\<rparr>,
       OnStart 0,
       TransportRequest
         [(''url'', JStr ''/items''), (''method'', JStr ''get''), (''tag'', JStr ''items'')],
       SetState \<lparr>state.status = FAILURE, state.response = Some (respond 250 ''get''),
                 state.error = None, state.tag = Some ''items''\<rparr>,
       OnFailure 2 (Some (respond 250 ''get''))])"
  by (simp add: steps callbacks examples)

section \<open>The status sequence of one \<open>fire\<close>\<close>

text \<open>
  C2, as stated: no fire() skips START, the cache-hit path included. With a cached
  response under the tag, the only status the run sets is SUCCESS.
\<close>

theorem fire_cache_hit_skips_START:
  "statuses (snd (fire (\<lambda>config. Pending) items_props items_cached (constructor items_props))) =
     [SUCCESS]"
  by (simp add: steps callbacks examples observers)

text \<open>
  C2, as the code has it: a fire() that finds a cached response sets SUCCESS alone. A
  fire() that finds none sets START and, once the transport has settled, exactly one of
  SUCCESS, FAILURE and ERROR after it, which is the status it ends in; while the
  transport is pending the sequence is START alone.
\<close>

theorem fire_status_sequence:
  "statuses (snd (fire net p ctx s)) =
     (case getCachedResponse p ctx of
        Some r \<Rightarrow> [SUCCESS]
      | None \<Rightarrow>
          (case net (prune (getConfig p)) of
             Pending \<Rightarrow> [START]
           | _ \<Rightarrow> [START, state.status (fst (fire net p ctx s))])) \<and>
   (getCachedResponse p ctx = None \<and> net (prune (getConfig p)) \<noteq> Pending \<longrightarrow>
      state.status (fst (fire net p ctx s)) \<in> {SUCCESS, FAILURE, ERROR})"
proof -
  have final: "getCachedResponse p ctx = None \<and> net (prune (getConfig p)) \<noteq> Pending \<longrightarrow>
      state.status (fst (fire net p ctx s)) \<in> {SUCCESS, FAILURE, ERROR}"
    using fire_final_status [of p ctx net s] by blast
  have "statuses (snd (fire net p ctx s)) =
     (case getCachedResponse p ctx of
        Some r \<Rightarrow> [SUCCESS]
      | None \<Rightarrow>
          (case net (prune (getConfig p)) of
             Pending \<Rightarrow> [START]
           | _ \<Rightarrow> [START, state.status (fst (fire net p ctx s))]))"
  proof (cases "getCachedResponse p ctx")
    case (Some r)
    then show ?thesis by (simp add: fire_cached statuses_ended)
  next
    case None
    obtain settled evs where ax: "axios_request net p ctx (prune (getConfig p)) = (settled, evs)"
      by (cases "axios_request net p ctx (prune (getConfig p))")
    have quiet: "statuses evs = []"
      using axios_request_events [OF ax] by (rule statuses_dispatched)
    have pend: "settled = Pending \<longleftrightarrow> net (prune (getConfig p)) = Pending"
      using ax by (rule axios_request_Pending)
    show ?thesis
    proof (cases settled)
      case Pending
      with pend None quiet show ?thesis
        by (simp add: fire_miss [OF None ax] statuses_append statuses_started)
    next
      case (Rejected err)
      with pend None quiet show ?thesis
        by (simp add: fire_miss [OF None ax] statuses_append statuses_started statuses_ended
            split: promise.split)
    next
      case (Fulfilled v)
      with pend None quiet show ?thesis
        by (cases v)
          (simp_all add: fire_miss [OF None ax] statuses_append statuses_started statuses_ended
            split: promise.split)
    qed
  qed
  with final show ?thesis by (rule conjI [rotated])
qed

text \<open>The end-to-end scenario: no store, the transport resolves with status 200.\<close>

theorem fire_status_sequence_witness:
  "getCachedResponse items_props no_store = None \<and>
   (\<lambda>config. Fulfilled (respond 200 ''get'')) (prune (getConfig items_props)) \<noteq> Pending \<and>
   statuses (snd (fire (\<lambda>config. Fulfilled (respond 200 ''get'')) items_props no_store
                    (constructor items_props))) = [START, SUCCESS]"
proof -
  let ?net = "\<lambda>config :: (string \<times> jsval) list. Fulfilled (respond 200 ''get'')"
  let ?s = "constructor items_props"
  have miss: "getCachedResponse items_props no_store = None"
    by (simp add: getCachedResponse_def no_store_def)
  have final: "state.status (fst (fire ?net items_props no_store ?s)) = SUCCESS"
    by (simp add: steps callbacks examples)
  have "statuses (snd (fire ?net items_props no_store ?s)) = [START, SUCCESS]"
    using fire_status_sequence [of ?net items_props no_store ?s] miss final by simp
  with miss show ?thesis by simp
qed

section \<open>The response interceptor\<close>

text \<open>
  C3. With caching configured, a response to a request whose method is not head, get or
  post produces no cache write, and the interceptor still returns the response
  unchanged. The code returns \<open>undefined\<close> there (\<open>interceptor_uncacheable\<close>): for
  a \<open>delete\<close> answered with status 200 nothing is dispatched, the interceptor's value is
  \<open>undefined\<close>, reading its \<open>status\<close> throws, and the run ends in ERROR.
\<close>

theorem interceptor_drops_uncacheable_response:
  "cacheResponseInterceptor items_delete_cached (store_with Map.empty) (respond 200 ''delete'') =
     Inr (None, []) \<and>
   fst (fire (\<lambda>config. Fulfilled (respond 200 ''delete'')) items_delete_cached
          (store_with Map.empty) (constructor items_delete_cached)) =
     \<lparr>state.status = ERROR, state.response = None,
      state.error = Some (TypeError ''cannot read status of undefined''),
      state.tag = Some ''items''\<rparr>"
  by (simp add: steps callbacks examples items_delete_cached_def)

text \<open>
  C4, as stated: with a cache duration and no tag, a fatal assertion is raised before
  any transport call. The run below hands the request to the transport first; the
  assertion fails only in the interceptor, on the response.
\<close>

theorem fire_requests_before_tag_assertion:
  "snd (fire (\<lambda>config. Fulfilled (respond 200 ''get'')) items_untagged (store_with Map.empty)
          (constructor items_untagged)) =
     [SetState \<lparr>state.status = START, state.response = None, state.error = None,
                state.tag = None\<rparr>,
      OnStart 0,
      TransportRequest [(''url'', JStr ''/items''), (''method'', JStr ''get'')],
      SetState \<lparr>state.status = ERROR, state.response = None,
                state.error =
                  Some (InvariantViolation (Text ''tag property is required for caching'')),
                state.tag = None\<rparr>,
      OnError 3 (Some (InvariantViolation (Text ''tag property is required for caching''))),
      Uncaught
        (InvariantViolation
           (StackOf (InvariantViolation (Text ''tag property is required for caching''))))]"
  by (simp add: steps callbacks examples items_untagged_def)

text \<open>
  C4, as the code has it: with a cache duration and no tag, a fire() that finds no
  cached response makes the transport call unchecked. When the transport resolves with
  a response to a head, get or post, the interceptor fails its assertion (on the store
  when there is none, on the tag otherwise) and dispatches nothing; the run records the
  violation as the error of the ERROR state, calls \<open>onError\<close> and raises.
\<close>

theorem fire_untagged_cache:
  assumes "cache p = Some c" and "props.tag p = None"
    and "getCachedResponse p ctx = None"
    and "net (prune (getConfig p)) = Fulfilled r"
    and "config_method r = Some m" and "toLowerCase m \<in> set cacheableMethods"
  shows "cacheResponseInterceptor p ctx r = Inl (caching_violation ctx) \<and>
         fire net p ctx s =
           (s\<lparr>state.status := ERROR, state.error := Some (caching_violation ctx)\<rparr>,
            SetState (s\<lparr>state.status := START\<rparr>) #
            (case onStart p of None \<Rightarrow> [] | Some f \<Rightarrow> [OnStart f]) @
            [TransportRequest (prune (getConfig p)),
             SetState (s\<lparr>state.status := ERROR, state.error := Some (caching_violation ctx)\<rparr>)] @
            (case onError p of None \<Rightarrow> [] | Some f \<Rightarrow> [OnError f (Some (caching_violation ctx))]) @
            [Uncaught (InvariantViolation (StackOf (caching_violation ctx)))])"
proof -
  have thrown: "cacheResponseInterceptor p ctx r = Inl (caching_violation ctx)"
    using assms(1,2,5,6) by (rule interceptor_untagged)
  with assms(4) have "axios_request net p ctx (prune (getConfig p)) =
      (Rejected (caching_violation ctx), [])"
    by (simp add: axios_request_def)
  from fire_miss [OF assms(3) this] thrown show ?thesis
    by (simp add: started_def ended_ERROR_def)
qed

theorem fire_untagged_cache_witness:
  "cache items_untagged = Some 1000 \<and> props.tag items_untagged = None \<and>
   getCachedResponse items_untagged no_store = None \<and>
   config_method (respond 200 ''GET'') = Some ''GET'' \<and>
   toLowerCase ''GET'' \<in> set cacheableMethods \<and>
   statuses (snd (fire (\<lambda>config. Fulfilled (respond 200 ''GET'')) items_untagged no_store
                    (constructor items_untagged))) = [START, ERROR] \<and>
   state.error (fst (fire (\<lambda>config. Fulfilled (respond 200 ''GET'')) items_untagged no_store
                    (constructor items_untagged))) =
     Some (InvariantViolation (Text ''caching is only available when store is configured''))"
proof -
  let ?net = "\<lambda>config :: (string \<times> jsval) list. Fulfilled (respond 200 ''GET'')"
  have h1: "cache items_untagged = Some 1000"
    by (simp add: items_untagged_def)
  have h2: "props.tag items_untagged = None"
    by (simp add: items_untagged_def)
  have h3: "getCachedResponse items_untagged no_store = None"
    by (simp add: getCachedResponse_def no_store_def)
  have h4: "?net (prune (getConfig items_untagged)) = Fulfilled (respond 200 ''GET'')"
    by simp
  have h5: "config_method (respond 200 ''GET'') = Some ''GET''"
    by (simp add: respond_def)
  have h6: "toLowerCase ''GET'' \<in> set cacheableMethods"
    by (simp add: toLowerCase_def cacheableMethods_def)
  note run = fire_untagged_cache [OF h1 h2 h3 h4 h5 h6, of "constructor items_untagged"]
  have "statuses (snd (fire ?net items_untagged no_store (constructor items_untagged))) =
      [START, ERROR]"
    using run by (simp add: observers split: option.split)
  moreover have "state.error (fst (fire ?net items_untagged no_store (constructor items_untagged))) =
      Some (InvariantViolation (Text ''caching is only available when store is configured''))"
    using run by (simp add: caching_violation_def no_store_def)
  ultimately show ?thesis using h1 h2 h3 h5 h6 by simp
qed

section \<open>The cache hit\<close>

text \<open>
  C5. When the store holds an entry with a response under the current tag, fire() sets
  SUCCESS with exactly that response, calls \<open>onSuccess\<close> with it if registered, and
  makes no transport call.
\<close>

theorem fire_cache_hit:
  assumes "store ctx = Some st" and "props.tag p = Some T"
    and "requests (getState st) T = Some entry"
    and "cache_entry.response entry = Some r"
  shows "fire net p ctx s =
           (s\<lparr>state.status := SUCCESS, state.response := Some r\<rparr>,
            SetState (s\<lparr>state.status := SUCCESS, state.response := Some r\<rparr>) #
              (case onSuccess p of None \<Rightarrow> [] | Some f \<Rightarrow> [OnSuccess f (Some r)])) \<and>
         filter is_transport_call (snd (fire net p ctx s)) = []"
proof -
  have "getCachedResponse p ctx = Some r"
    using assms by (simp add: getCachedResponse_def ToPropertyKey_def)
  then show ?thesis
    by (simp add: fire_cached ended_SUCCESS_def is_transport_call_def split: option.split)
qed

text \<open>The response \<open>{status: 200, data: "X"}\<close> is replayed though the network would answer 404.\<close>

theorem fire_cache_hit_witness:
  "store items_cached = Some \<lparr>getState = \<lparr>requests = [''items'' \<mapsto> \<lparr>cache_entry.response = Some cached_X\<rparr>]\<rparr>\<rparr> \<and>
   props.tag items_props = Some ''items'' \<and>
   fire (\<lambda>config. Fulfilled (respond 404 ''get'')) items_props items_cached (constructor items_props) =
     (\<lparr>state.status = SUCCESS, state.response = Some cached_X, state.error = None,
       state.tag = Some ''items''\<rparr>,
      [SetState \<lparr>state.status = SUCCESS, state.response = Some cached_X, state.error = None,
                 state.tag = Some ''items''\<rparr>,
       OnSuccess 1 (Some cached_X)])"
proof -
  let ?st = "\<lparr>getState = \<lparr>requests = [''items'' \<mapsto> \<lparr>cache_entry.response = Some cached_X\<rparr>]\<rparr>\<rparr>"
  have h1: "store items_cached = Some ?st"
    by (simp add: items_cached_def store_with_def)
  have h2: "props.tag items_props = Some ''items''"
    by (simp add: items_props_def)
  have h3: "requests (getState ?st) ''items'' = Some \<lparr>cache_entry.response = Some cached_X\<rparr>"
    by simp
  have h4: "cache_entry.response \<lparr>cache_entry.response = Some cached_X\<rparr> = Some cached_X"
    by simp
  from fire_cache_hit [OF h1 h2 h3 h4, of "\<lambda>config. Fulfilled (respond 404 ''get'')" "constructor items_props"]
  have "fire (\<lambda>config. Fulfilled (respond 404 ''get'')) items_props items_cached (constructor items_props) =
     (\<lparr>state.status = SUCCESS, state.response = Some cached_X, state.error = None,
       state.tag = Some ''items''\<rparr>,
      [SetState \<lparr>state.status = SUCCESS, state.response = Some cached_X, state.error = None,
                 state.tag = Some ''items''\<rparr>,
       OnSuccess 1 (Some cached_X)])"
    by (simp add: constructor_def items_props_def)
  with h1 h2 show ?thesis by simp
qed

section \<open>The update path\<close>




text \<open>
  C7, as stated: when the extracted configurations differ in a whitelisted field and
  the deferred flag is false, the update starts exactly one fire(). Two request bodies
  that are \<open>URLSearchParams\<close> objects with different entries both serialise to \<open>{}\<close>:
  the update does nothing, where a fire() would have set START.
\<close>

theorem componentDidUpdate_misses_changed_body:
  "getConfig (search_props ''tea'') \<noteq> getConfig (search_props ''coffee'') \<and>
   \<not> defer (search_props ''tea'') \<and>
   componentDidUpdate (\<lambda>config. Pending) (search_props ''tea'') (search_props ''coffee'')
     no_store (constructor items_props) = (constructor items_props, []) \<and>
   fire (\<lambda>config. Pending) (search_props ''tea'') no_store (constructor items_props) \<noteq>
     (constructor items_props, [])"
  by (simp add: componentDidUpdate_def stringify_search_props)
    (simp add: steps callbacks examples search_props_def)

text \<open>
  C7, as the code has it: when the \<open>JSON.stringify\<close> texts of the extracted
  configurations differ, the update is exactly one fire() if the deferred flag is
  false, and nothing if it is true. A fire() always leaves an event, so the two cannot
  be confused.
\<close>

theorem componentDidUpdate_changed_serialisation:
  assumes "JSON_stringify (getConfig p) \<noteq> JSON_stringify (getConfig prevProps)"
  shows "componentDidUpdate net p prevProps ctx s =
           (if defer p then (s, []) else fire net p ctx s) \<and>
         snd (fire net p ctx s) \<noteq> []"
  using assms by (simp add: componentDidUpdate_def fire_events)

theorem componentDidUpdate_changed_serialisation_witness:
  "JSON_stringify (getConfig (items_props\<lparr>url := JStr ''/items?page=2''\<rparr>)) \<noteq>
     JSON_stringify (getConfig items_props) \<and>
   componentDidUpdate (\<lambda>config. Pending) (items_props\<lparr>url := JStr ''/items?page=2''\<rparr>)
     items_props no_store (constructor items_props) =
   fire (\<lambda>config. Pending) (items_props\<lparr>url := JStr ''/items?page=2''\<rparr>) no_store
     (constructor items_props)"
proof -
  let ?p = "items_props\<lparr>url := JStr ''/items?page=2''\<rparr>"
  have changed: "JSON_stringify (getConfig ?p) \<noteq> JSON_stringify (getConfig items_props)"
    by (simp add: serialise getConfig_def optional_def items_props_def)
  have eager: "\<not> defer ?p"
    by (simp add: items_props_def)
  from componentDidUpdate_changed_serialisation [OF changed] eager changed show ?thesis
    by simp
qed

section \<open>Callbacks and faults\<close>

text \<open>
  C8. A completed fire() (one that read the cache, or whose transport has settled)
  calls exactly one of \<open>onSuccess\<close>, \<open>onFailure\<close>, \<open>onError\<close>: the one of the status it
  ends in, when that one is registered, and never more than one.
\<close>

theorem fire_one_outcome_callback:
  assumes "getCachedResponse p ctx \<noteq> None \<or> net (prune (getConfig p)) \<noteq> Pending"
  shows "filter is_outcome_callback (snd (fire net p ctx s)) =
           outcome_callback p (fst (fire net p ctx s)) \<and>
         length (filter is_outcome_callback (snd (fire net p ctx s))) \<le> 1 \<and>
         (onSuccess p \<noteq> None \<and> onFailure p \<noteq> None \<and> onError p \<noteq> None \<longrightarrow>
            length (filter is_outcome_callback (snd (fire net p ctx s))) = 1)"
proof -
  have eq: "filter is_outcome_callback (snd (fire net p ctx s)) =
      outcome_callback p (fst (fire net p ctx s))"
    using assms by (rule fire_outcome_callback)
  have final: "state.status (fst (fire net p ctx s)) \<in> {SUCCESS, FAILURE, ERROR}"
    using assms by (rule fire_final_status)
  have "length (outcome_callback p t) \<le> 1" for t
    by (simp add: outcome_callback_def split: status.split option.split)
  moreover have "length (outcome_callback p t) = 1"
    if "onSuccess p \<noteq> None \<and> onFailure p \<noteq> None \<and> onError p \<noteq> None"
      and "state.status t \<in> {SUCCESS, FAILURE, ERROR}" for t
    using that by (auto simp: outcome_callback_def split: status.split)
  ultimately show ?thesis using eq final by simp
qed

theorem fire_one_outcome_callback_witness:
  "(\<lambda>config. Rejected (TransportFault ''Network Error'')) (prune (getConfig items_props)) \<noteq> Pending \<and>
   filter is_outcome_callback
     (snd (fire (\<lambda>config. Rejected (TransportFault ''Network Error'')) items_props no_store
             (constructor items_props))) =
     [OnError 3 (Some (TransportFault ''Network Error''))]"
proof -
  let ?net = "\<lambda>config :: (string \<times> jsval) list. (Rejected (TransportFault ''Network Error'') :: response promise)"
  let ?s = "constructor items_props"
  have settled: "?net (prune (getConfig items_props)) \<noteq> Pending"
    by simp
  then have completed:
    "getCachedResponse items_props no_store \<noteq> None \<or> ?net (prune (getConfig items_props)) \<noteq> Pending"
    by (rule disjI2)
  have final: "fst (fire ?net items_props no_store ?s) =
      \<lparr>state.status = ERROR, state.response = None,
       state.error = Some (TransportFault ''Network Error''), state.tag = Some ''items''\<rparr>"
    by (simp add: steps callbacks examples)
  have "filter is_outcome_callback (snd (fire ?net items_props no_store ?s)) =
      outcome_callback items_props (fst (fire ?net items_props no_store ?s))"
    using fire_one_outcome_callback [OF completed, of ?s] by (rule conjunct1)
  then have "filter is_outcome_callback (snd (fire ?net items_props no_store ?s)) =
      [OnError 3 (Some (TransportFault ''Network Error''))]"
    unfolding final by (simp add: outcome_callback_def items_props_def)
  with settled show ?thesis by simp
qed

text \<open>
  C9, as stated: after a rejection of the transport the original fault is raised again.
  What the run raises is a new \<open>Invariant Violation\<close> whose message is the stack text
  of the fault; the fault itself goes to the state and to \<open>onError\<close> only.
\<close>

theorem fire_rejection_raises_new_fault:
  "snd (fire (\<lambda>config. Rejected (TransportFault ''Network Error'')) items_props no_store
          (constructor items_props)) =
     [SetState \<lparr>state.status = START, state.response = None, state.error = None,
                state.tag = Some ''items''\<rparr>,
      OnStart 0,
      TransportRequest
        [(''url'', JStr ''/items''), (''method'', JStr ''get''), (''tag'', JStr ''items'')],
      SetState \<lparr>state.status = ERROR, state.response = None,
                state.error = Some (TransportFault ''Network Error''),
                state.tag = Some ''items''\<rparr>,
      OnError 3 (Some (TransportFault ''Network Error'')),
      Uncaught (InvariantViolation (StackOf (TransportFault ''Network Error'')))] \<and>
   InvariantViolation (StackOf (TransportFault ''Network Error'')) \<noteq>
     TransportFault ''Network Error''"
  by (simp add: steps callbacks examples)

text \<open>
  C9, as the code has it: when the transport rejects, fire() sets ERROR with the
  rejecting fault in the error field, calls \<open>onError\<close> with it if registered, and
  then, after the state is recorded, raises an \<open>Invariant Violation\<close> that carries the
  stack text of the fault, which nothing in the chain handles.
\<close>

theorem fire_transport_rejection:
  assumes "getCachedResponse p ctx = None"
    and "net (prune (getConfig p)) = Rejected err"
  shows "fire net p ctx s =
           (s\<lparr>state.status := ERROR, state.error := Some err\<rparr>,
            SetState (s\<lparr>state.status := START\<rparr>) #
            (case onStart p of None \<Rightarrow> [] | Some f \<Rightarrow> [OnStart f]) @
            [TransportRequest (prune (getConfig p)),
             SetState (s\<lparr>state.status := ERROR, state.error := Some err\<rparr>)] @
            (case onError p of None \<Rightarrow> [] | Some f \<Rightarrow> [OnError f (Some err)]) @
            [Uncaught (InvariantViolation (StackOf err))])"
proof -
  from assms(2) have "axios_request net p ctx (prune (getConfig p)) = (Rejected err, [])"
    by (simp add: axios_request_def)
  from fire_miss [OF assms(1) this] show ?thesis
    by (simp add: started_def ended_ERROR_def)
qed

theorem fire_transport_rejection_witness:
  "getCachedResponse items_props no_store = None \<and>
   fire (\<lambda>config. Rejected (TransportFault ''timeout of 1000ms exceeded'')) items_props no_store
     (constructor items_props) =
     (\<lparr>state.status = ERROR, state.response = None,
       state.error = Some (TransportFault ''timeout of 1000ms exceeded''),
       state.tag = Some ''items''\<rparr>,
      [SetState \<lparr>state.status = START, state.response = None, state.error = None,
                 state.tag = Some ''items''\<rparr>,
       OnStart 0,
       TransportRequest
         [(''url'', JStr ''/items''), (''method'', JStr ''get''), (''tag'', JStr ''items'')],
       SetState \<lparr>state.status = ERROR, state.response = None,
                 state.error = Some (TransportFault ''timeout of 1000ms exceeded''),
                 state.tag = Some ''items''\<rparr>,
       OnError 3 (Some (TransportFault ''timeout of 1000ms exceeded'')),
       Uncaught (InvariantViolation (StackOf (TransportFault ''timeout of 1000ms exceeded'')))])"
proof -
  let ?net = "\<lambda>config :: (string \<times> jsval) list.
    (Rejected (TransportFault ''timeout of 1000ms exceeded'') :: response promise)"
  have miss: "getCachedResponse items_props no_store = None"
    by (simp add: getCachedResponse_def no_store_def)
  have rejected: "?net (prune (getConfig items_props)) =
      Rejected (TransportFault ''timeout of 1000ms exceeded'')"
    by simp
  from fire_transport_rejection [OF miss rejected, of "constructor items_props"] miss
  show ?thesis
    by (simp add: constructor_def items_props_def prune_def getConfig_def optional_def)
qed

section \<open>What a transition leaves alone\<close>

text \<open>
  C10. The constructor sets the response and the error to null and the tag to the tag
  of the initial properties. After that every state update of fire(), on mount and on
  update, is a \<open>transition\<close>: it sets the status and at most the one field it carries.
  So a run that does not end in ERROR leaves the error as it was, a run that ends in
  ERROR leaves the response as it was, a response or an error once set is never null
  again, and the tag of the state is never changed, also when the properties come with
  another tag.
\<close>

theorem transitions_frame:
  "constructor p =
     \<lparr>state.status = INIT, state.response = None, state.error = None,
      state.tag = props.tag p\<rparr> \<and>
   chain s (states (snd (fire net p ctx s))) \<and>
   fst (fire net p ctx s) = last (s # states (snd (fire net p ctx s))) \<and>
   (state.status (fst (fire net p ctx s)) \<noteq> ERROR \<longrightarrow>
      state.error (fst (fire net p ctx s)) = state.error s) \<and>
   (state.status (fst (fire net p ctx s)) = ERROR \<longrightarrow>
      state.response (fst (fire net p ctx s)) = state.response s) \<and>
   (state.response s \<noteq> None \<longrightarrow> state.response (fst (fire net p ctx s)) \<noteq> None) \<and>
   (state.error s \<noteq> None \<longrightarrow> state.error (fst (fire net p ctx s)) \<noteq> None) \<and>
   state.tag (fst (fire net p ctx s)) = state.tag s \<and>
   chain s (states (snd (componentDidMount net p ctx s))) \<and>
   fst (componentDidMount net p ctx s) = last (s # states (snd (componentDidMount net p ctx s))) \<and>
   chain s (states (snd (componentDidUpdate net p prevProps ctx s))) \<and>
   fst (componentDidUpdate net p prevProps ctx s) =
     last (s # states (snd (componentDidUpdate net p prevProps ctx s))) \<and>
   state.tag (fst (componentDidUpdate net p prevProps ctx s)) = state.tag s"
proof -
  note frame = fire_frame [of s net p ctx]
  from frame have fired: "chain s (states (snd (fire net p ctx s)))"
    and final: "fst (fire net p ctx s) = last (s # states (snd (fire net p ctx s)))"
    by blast+
  have kept: "state.tag (fst (fire net p ctx s)) = state.tag s"
    "state.response s \<noteq> None \<longrightarrow> state.response (fst (fire net p ctx s)) \<noteq> None"
    "state.error s \<noteq> None \<longrightarrow> state.error (fst (fire net p ctx s)) \<noteq> None"
    unfolding final using chain_last [OF fired] by blast+
  have mount: "chain s (states (snd (componentDidMount net p ctx s))) \<and>
      fst (componentDidMount net p ctx s) = last (s # states (snd (componentDidMount net p ctx s)))"
    using componentDidMount_cases [of net p ctx s] fired final
    by (auto simp: states_Nil)
  have update: "chain s (states (snd (componentDidUpdate net p prevProps ctx s))) \<and>
      fst (componentDidUpdate net p prevProps ctx s) =
        last (s # states (snd (componentDidUpdate net p prevProps ctx s)))"
    using componentDidUpdate_cases [of net p prevProps ctx s] fired final
    by (auto simp: states_Nil)
  then have updated: "chain s (states (snd (componentDidUpdate net p prevProps ctx s)))"
    and result: "fst (componentDidUpdate net p prevProps ctx s) =
        last (s # states (snd (componentDidUpdate net p prevProps ctx s)))"
    by blast+
  have tagged: "state.tag (fst (componentDidUpdate net p prevProps ctx s)) = state.tag s"
    unfolding result by (rule chain_last(1) [OF updated])
  have init: "constructor p =
     \<lparr>state.status = INIT, state.response = None, state.error = None,
      state.tag = props.tag p\<rparr>"
    by (simp add: constructor_def)
  from init frame kept mount update tagged show ?thesis
    by blast
qed

text \<open>
  A cache hit after an ERROR keeps the stale error, and an update whose properties have
  the tag \<open>other\<close> leaves the tag \<open>items\<close> in the state.
\<close>

theorem transitions_frame_witness:
  "state.error after_error = Some (TransportFault ''Network Error'') \<and>
   fst (fire (\<lambda>config. Pending) items_props items_cached after_error) =
     \<lparr>state.status = SUCCESS, state.response = Some cached_X,
      state.error = Some (TransportFault ''Network Error''), state.tag = Some ''items''\<rparr> \<and>
   props.tag (items_props\<lparr>props.tag := Some ''other''\<rparr>) = Some ''other'' \<and>
   state.tag (fst (componentDidUpdate (\<lambda>config. Fulfilled (respond 200 ''get''))
                     (items_props\<lparr>props.tag := Some ''other''\<rparr>) items_props no_store
                     (constructor items_props))) = Some ''items''"
proof -
  let ?p = "items_props\<lparr>props.tag := Some ''other''\<rparr>"
  let ?net = "\<lambda>config :: (string \<times> jsval) list. Fulfilled (respond 200 ''get'')"
  let ?idle = "\<lambda>config :: (string \<times> jsval) list. (Pending :: response promise)"
  have stale: "state.error after_error = Some (TransportFault ''Network Error'')"
    by (simp add: after_error_def)
  have hit: "fst (fire ?idle items_props items_cached after_error) =
      after_error\<lparr>state.status := SUCCESS, state.response := Some cached_X\<rparr>"
    by (simp add: steps callbacks examples)
  have "state.status (fst (fire ?idle items_props items_cached after_error)) \<noteq> ERROR \<longrightarrow>
      state.error (fst (fire ?idle items_props items_cached after_error)) = state.error after_error"
    using transitions_frame [of items_props after_error ?idle items_cached items_props]
    by blast
  with hit have first: "fst (fire ?idle items_props items_cached after_error) =
     \<lparr>state.status = SUCCESS, state.response = Some cached_X,
      state.error = Some (TransportFault ''Network Error''), state.tag = Some ''items''\<rparr>"
    by (simp add: after_error_def)
  have "state.tag (fst (componentDidUpdate ?net ?p items_props no_store (constructor items_props))) =
      state.tag (constructor items_props)"
    using transitions_frame [of ?p "constructor items_props" ?net no_store items_props]
    by blast
  then have second: "state.tag (fst (componentDidUpdate ?net ?p items_props no_store
      (constructor items_props))) = Some ''items''"
    by (simp add: constructor_def items_props_def)
  from stale first second show ?thesis
    by simp
qed

end
